theory Spec2Isabelle
  imports Complex_Main "HOL-Library.Sublist"
begin

section \<open>Data model\<close>

text \<open>
  A JavaScript string that the filter lowers and searches (a name, a path, the search term)
  is the list of its UTF-16 code units, as numbers below 65536. Node ids, type tags, property
  keys and messages are only compared for equality; they stay Isabelle strings, and type tags
  are the literal strings of the source (\<open>'File'\<close>, \<open>'LintError'\<close>, \<open>'CALLS'\<close>, ...).
\<close>

type_synonym jsstring = "nat list"

text \<open>The code units of an ASCII literal.\<close>

definition str :: "string \<Rightarrow> jsstring" where
  "str s = map of_char s"

text \<open>
  A property value is a JavaScript primitive: a string, a number, a boolean or \<open>null\<close>.
  The \<open>properties\<close> object of a node is an association list from keys to such values;
  \<open>None\<close> stands for a node without a \<open>properties\<close> field. The layout fields \<open>x\<close>,
  \<open>y\<close>, \<open>fx\<close>, \<open>fy\<close> are written by the force simulation only and are read by none of
  the functions below, so the record leaves them out.
\<close>

datatype prim = PStr jsstring | PNum real | PBool bool | PNull

record node =
  node_id :: string
  node_type :: string
  properties :: "(string \<times> prim) list option"

text \<open>
  A link endpoint is either a bare node id or, once the force layout has resolved it, the
  node object itself.
\<close>

datatype endpoint = EId string | ERef node

record link =
  source :: endpoint
  target :: endpoint
  link_type :: string

text \<open>The node id that an endpoint denotes, in either form.\<close>

definition endpointId :: "endpoint \<Rightarrow> string" where
  "endpointId e = (case e of EId s \<Rightarrow> s | ERef n \<Rightarrow> node_id n)"

record graph_data =
  nodes :: "node list"
  links :: "link list"

text \<open>The \<open>filters\<close> state of \<open>GraphVisualizer\<close>.\<close>

record filters =
  nodeTypes :: "string list"
  showErrors :: bool
  showCalls :: bool
  searchTerm :: jsstring

section \<open>Strings\<close>

text \<open>
  \<open>s.includes(t)\<close>: \<open>t\<close> occurs in \<open>s\<close> as a contiguous run of code units, searched
  from the left. The name carries a prefix because \<open>includes\<close> is a keyword of the proof
  language.
\<close>

fun str_includes :: "jsstring \<Rightarrow> jsstring \<Rightarrow> bool" where
  "str_includes [] t = (t = [])"
| "str_includes (c # s) t = (prefix t (c # s) \<or> str_includes s t)"

text \<open>
  \<open>String.prototype.toLowerCase\<close> is a function of the JavaScript runtime and not of this
  repository: the Unicode lower-case conversion, which is not a character-by-character map.
  The derivations that call it take it as their first parameter \<open>lower\<close>, so that what is
  proved of them for every \<open>lower\<close> holds of the runtime's function.
\<close>

section \<open>The filter derivation of GraphVisualizer\<close>

datatype js_error = TypeError

text \<open>Truthiness of a primitive.\<close>

definition truthyPrim :: "prim \<Rightarrow> bool" where
  "truthyPrim v =
     (case v of PStr s \<Rightarrow> s \<noteq> [] | PNum x \<Rightarrow> x \<noteq> 0 | PBool b \<Rightarrow> b | PNull \<Rightarrow> False)"

text \<open>
  \<open>node.properties?.[k] || ''\<close> for a key \<open>k\<close>: the value when it is truthy; an absent
  \<open>properties\<close> object, an absent key and a falsy value all give the empty string.
\<close>

definition strProp :: "node \<Rightarrow> string \<Rightarrow> prim" where
  "strProp n k =
     (case properties n of
        None \<Rightarrow> PStr []
      | Some kvs \<Rightarrow>
          (case map_of kvs k of
             None \<Rightarrow> PStr []
           | Some v \<Rightarrow> (if truthyPrim v then v else PStr [])))"

text \<open>
  The method call \<open>v.toLowerCase()\<close>: a number and a boolean have no such method, and the
  call throws a \<open>TypeError\<close>.
\<close>

definition callToLowerCase :: "(jsstring \<Rightarrow> jsstring) \<Rightarrow> prim \<Rightarrow> js_error + jsstring" where
  "callToLowerCase lower v = (case v of PStr s \<Rightarrow> Inr (lower s) | _ \<Rightarrow> Inl TypeError)"

text \<open>The constants \<open>searchLower\<close>, \<open>nodeName\<close> and \<open>nodePath\<close> of the filter callback.\<close>

definition searchLower :: "(jsstring \<Rightarrow> jsstring) \<Rightarrow> filters \<Rightarrow> jsstring" where
  "searchLower lower f = lower (searchTerm f)"

definition nodeName :: "(jsstring \<Rightarrow> jsstring) \<Rightarrow> node \<Rightarrow> js_error + jsstring" where
  "nodeName lower n = callToLowerCase lower (strProp n ''name'')"

definition nodePath :: "(jsstring \<Rightarrow> jsstring) \<Rightarrow> node \<Rightarrow> js_error + jsstring" where
  "nodePath lower n = callToLowerCase lower (strProp n ''path'')"

text \<open>The last two statements of the callback, which both paths through it reach.\<close>

definition errorGate :: "filters \<Rightarrow> node \<Rightarrow> bool" where
  "errorGate f n = (if \<not> showErrors f \<and> node_type n = ''LintError'' then False else True)"

text \<open>
  The callback of \<open>graphData.nodes.filter\<close>, with its three early returns in the order of
  the source. A JavaScript string is truthy exactly when it is not empty. Inside the search
  block the name is lowered before the path, and both before the test.
\<close>

definition nodePasses :: "(jsstring \<Rightarrow> jsstring) \<Rightarrow> filters \<Rightarrow> node \<Rightarrow> js_error + bool" where
  "nodePasses lower f n =
     (if node_type n \<notin> set (nodeTypes f) then Inr False
      else if searchTerm f \<noteq> [] then
        (case nodeName lower n of
           Inl e \<Rightarrow> Inl e
         | Inr name \<Rightarrow>
             (case nodePath lower n of
                Inl e \<Rightarrow> Inl e
              | Inr path \<Rightarrow>
                  (if \<not> str_includes name (searchLower lower f) \<and>
                      \<not> str_includes path (searchLower lower f)
                   then Inr False
                   else Inr (errorGate f n))))
      else Inr (errorGate f n))"

text \<open>
  \<open>Array.prototype.filter\<close> with a callback that may throw: the elements are visited in
  order and the first exception ends the call.
\<close>

fun filterE :: "('a \<Rightarrow> js_error + bool) \<Rightarrow> 'a list \<Rightarrow> js_error + 'a list" where
  "filterE p [] = Inr []"
| "filterE p (x # xs) =
     (case p x of
        Inl e \<Rightarrow> Inl e
      | Inr b \<Rightarrow>
          (case filterE p xs of
             Inl e \<Rightarrow> Inl e
           | Inr ys \<Rightarrow> Inr (if b then x # ys else ys)))"

text \<open>
  The value of \<open>link.source.id || link.source\<close>. For a bare id the property \<open>id\<close> of a
  string is undefined and the id itself results. For a node object the result is its
  \<open>id\<close> when that is truthy, and the object itself when the id is the empty string.
\<close>

datatype jsval = JStr string | JObj node

definition endpointKey :: "endpoint \<Rightarrow> jsval" where
  "endpointKey e =
     (case e of
        EId s \<Rightarrow> JStr s
      | ERef n \<Rightarrow> (if node_id n \<noteq> '''' then JStr (node_id n) else JObj n))"

text \<open>\<open>new Set(nodes.map(n => n.id))\<close>, and the callback of \<open>graphData.links.filter\<close>.\<close>

definition nodeIds :: "node list \<Rightarrow> jsval set" where
  "nodeIds ns = set (map (\<lambda>n. JStr (node_id n)) ns)"

definition linkPasses :: "filters \<Rightarrow> jsval set \<Rightarrow> link \<Rightarrow> bool" where
  "linkPasses f ids l =
     (if endpointKey (source l) \<notin> ids \<or> endpointKey (target l) \<notin> ids then False
      else if \<not> showCalls f \<and> link_type l = ''CALLS'' then False
      else True)"

text \<open>
  \<open>filteredData\<close>; \<open>None\<close> is a \<open>graphData\<close> that is null or undefined. The result is
  the view, or the exception that the node filter threw.
\<close>

definition filteredData ::
  "(jsstring \<Rightarrow> jsstring) \<Rightarrow> graph_data option \<Rightarrow> filters \<Rightarrow> js_error + graph_data" where
  "filteredData lower graphData f =
     (case graphData of
        None \<Rightarrow> Inr \<lparr>nodes = [], links = []\<rparr>
      | Some g \<Rightarrow>
          (case filterE (nodePasses lower f) (nodes g) of
             Inl e \<Rightarrow> Inl e
           | Inr ns \<Rightarrow>
               Inr \<lparr>nodes = ns, links = filter (linkPasses f (nodeIds ns)) (links g)\<rparr>))"

section \<open>Hover emphasis of GraphVisualizer\<close>

text \<open>
  The \<open>links.forEach\<close> loop of \<open>highlightConnected\<close>: one step adds to the set
  \<open>connectedNodeIds\<close> the other end of a link that starts or ends at the hovered node.
  \<open>===\<close> compares the endpoint value with the string \<open>node.id\<close>.
\<close>

definition addConnected :: "node \<Rightarrow> link \<Rightarrow> jsval set \<Rightarrow> jsval set" where
  "addConnected node l acc =
     (let sourceId = endpointKey (source l);
          targetId = endpointKey (target l);
          acc1 = (if sourceId = JStr (node_id node) then insert targetId acc else acc)
      in if targetId = JStr (node_id node) then insert sourceId acc1 else acc1)"

definition connectedNodeIds :: "link list \<Rightarrow> node \<Rightarrow> jsval set" where
  "connectedNodeIds ls node = fold (addConnected node) ls {}"

text \<open>The three style callbacks of \<open>highlightConnected\<close>.\<close>

definition nodeOpacity :: "link list \<Rightarrow> node \<Rightarrow> node \<Rightarrow> real" where
  "nodeOpacity ls node d =
     (if node_id d = node_id node \<or> JStr (node_id d) \<in> connectedNodeIds ls node then 1
      else 0.3)"

definition linkOpacity :: "node \<Rightarrow> link \<Rightarrow> real" where
  "linkOpacity node d =
     (let sourceId = endpointKey (source d); targetId = endpointKey (target d)
      in if sourceId = JStr (node_id node) \<or> targetId = JStr (node_id node) then 1 else 0.1)"

definition linkStrokeWidth :: "node \<Rightarrow> link \<Rightarrow> nat" where
  "linkStrokeWidth node d =
     (let sourceId = endpointKey (source d); targetId = endpointKey (target d)
      in if sourceId = JStr (node_id node) \<or> targetId = JStr (node_id node) then 3 else 1)"

text \<open>
  The rendered emphasis: the opacity of every node element, and the opacity and stroke
  width of every link element, in the order of the visible lists.
\<close>

record emphasis =
  node_opacity :: "(node \<times> real) list"
  link_style :: "(link \<times> real \<times> nat) list"

definition highlightConnected :: "graph_data \<Rightarrow> node \<Rightarrow> emphasis" where
  "highlightConnected vis node =
     \<lparr>node_opacity = map (\<lambda>d. (d, nodeOpacity (links vis) node d)) (nodes vis),
      link_style =
        map (\<lambda>d. (d, linkOpacity node d, linkStrokeWidth node d)) (links vis)\<rparr>"

definition removeHighlight :: "graph_data \<Rightarrow> emphasis" where
  "removeHighlight vis =
     \<lparr>node_opacity = map (\<lambda>d. (d, 1)) (nodes vis),
      link_style =
        map (\<lambda>d. (d, 0.6, if link_type d = ''CALLS'' then 2 else 1)) (links vis)\<rparr>"

section \<open>The request operations of useGraph\<close>

text \<open>
  A backend response is an object whose fields may be absent. An awaited call either
  resolves to a response or rejects with an error whose \<open>message\<close> may be undefined.
\<close>

record response =
  resp_error :: "string option"
  resp_nodes :: "node list option"
  resp_links :: "link list option"
  resp_paths :: "string list list option"
  resp_success :: bool

datatype 'a outcome = Rejected "string option" | Resolved 'a

text \<open>Truthiness of an optional string: present and not empty.\<close>

definition truthy :: "string option \<Rightarrow> bool" where
  "truthy v = (case v of None \<Rightarrow> False | Some s \<Rightarrow> s \<noteq> '''')"

text \<open>\<open>v || d\<close> for an optional string \<open>v\<close>, and \<open>v || []\<close> for an optional list.\<close>

definition orElse :: "string option \<Rightarrow> string \<Rightarrow> string" where
  "orElse v d = (case v of None \<Rightarrow> d | Some s \<Rightarrow> (if s \<noteq> '''' then s else d))"

definition orEmpty :: "'a list option \<Rightarrow> 'a list" where
  "orEmpty v = (case v of None \<Rightarrow> [] | Some xs \<Rightarrow> xs)"

text \<open>The data of a push message, and the actions that reach the store.\<close>

datatype msgdata = DNode node | DNodeId string | DLink link

datatype action =
    SetGraphLoading bool
  | SetGraphError "string option"
  | SetGraphData response
  | AddGraphNode "msgdata option"
  | RemoveGraphNode "string option"
  | AddGraphLink "msgdata option"
  | RemoveGraphLink "msgdata option"

definition emptyResponse :: response where
  "emptyResponse =
     \<lparr>resp_error = None, resp_nodes = None, resp_links = None, resp_paths = None,
      resp_success = False\<rparr>"

text \<open>
  Each operation returns the actions it dispatches, in order, and its return value.
  \<open>throw new Error(response.error)\<close> gives the caught error the message
  \<open>response.error\<close>.
\<close>

definition fetchGraphData :: "response outcome \<Rightarrow> action list" where
  "fetchGraphData r =
     [SetGraphLoading True, SetGraphError None] @
     (case r of
        Rejected m \<Rightarrow> [SetGraphError (Some (orElse m ''Failed to fetch graph data''))]
      | Resolved response \<Rightarrow>
          (if truthy (resp_error response)
           then [SetGraphError
                   (Some (orElse (resp_error response) ''Failed to fetch graph data''))]
           else [SetGraphData
                   (emptyResponse\<lparr>resp_nodes := Some (orEmpty (resp_nodes response)),
                                  resp_links := Some (orEmpty (resp_links response))\<rparr>)])) @
     [SetGraphLoading False]"

definition clearGraph :: "response outcome \<Rightarrow> action list \<times> bool" where
  "clearGraph r =
     (case r of
        Rejected m \<Rightarrow> ([], False)
      | Resolved response \<Rightarrow>
          (if resp_success response
           then ([SetGraphData (emptyResponse\<lparr>resp_nodes := Some [], resp_links := Some []\<rparr>)],
                 True)
           else ([], False)))"

definition pruneTree :: "response outcome \<Rightarrow> action list \<times> response option" where
  "pruneTree r =
     (case r of
        Rejected m \<Rightarrow>
          ([SetGraphLoading True, SetGraphError m, SetGraphLoading False], None)
      | Resolved response \<Rightarrow>
          (if truthy (resp_error response)
           then ([SetGraphLoading True, SetGraphError (resp_error response),
                  SetGraphLoading False], None)
           else ([SetGraphLoading True, SetGraphData response, SetGraphLoading False],
                 Some response)))"

definition getSubgraph :: "response outcome \<Rightarrow> action list \<times> response option" where
  "getSubgraph r =
     (case r of
        Rejected m \<Rightarrow> ([], None)
      | Resolved response \<Rightarrow>
          (if truthy (resp_error response) then ([], None) else ([], Some response)))"

definition findPaths :: "response outcome \<Rightarrow> action list \<times> string list list" where
  "findPaths r =
     (case r of
        Rejected m \<Rightarrow> ([], [])
      | Resolved response \<Rightarrow>
          (if truthy (resp_error response) then ([], [])
           else ([], orEmpty (resp_paths response))))"

definition searchNodes :: "response outcome \<Rightarrow> action list \<times> node list" where
  "searchNodes r =
     (case r of
        Rejected m \<Rightarrow> ([], [])
      | Resolved response \<Rightarrow>
          (if truthy (resp_error response) then ([], [])
           else ([], orEmpty (resp_nodes response))))"

definition getNodeDetails :: "response outcome \<Rightarrow> action list \<times> response option" where
  "getNodeDetails r =
     (case r of
        Rejected m \<Rightarrow> ([], None)
      | Resolved response \<Rightarrow>
          (if truthy (resp_error response) then ([], None) else ([], Some response)))"

definition exportGraph :: "response outcome \<Rightarrow> action list \<times> response option" where
  "exportGraph r =
     (case r of
        Rejected m \<Rightarrow> ([], None)
      | Resolved response \<Rightarrow>
          (if truthy (resp_error response) then ([], None) else ([], Some response)))"

section \<open>The push connection of useGraph\<close>

text \<open>
  A parsed push message \<open>{type, data}\<close>; either field may be missing. The handler
  \<open>ws.onmessage\<close> takes \<open>None\<close> for an \<open>event.data\<close> on which \<open>JSON.parse\<close> throws.
  It either refetches the graph, dispatches one action, or does nothing; an exception inside
  the \<open>try\<close> block (reading \<open>nodeId\<close> of an undefined \<open>data\<close>) is caught and nothing
  is dispatched.
\<close>

record message =
  msg_type :: "string option"
  msg_data :: "msgdata option"

datatype effect = Refetch | Dispatch action

definition onmessage :: "message option \<Rightarrow> effect list" where
  "onmessage ev =
     (case ev of
        None \<Rightarrow> []
      | Some message \<Rightarrow>
          (if msg_type message = Some ''graph_updated'' then [Refetch]
           else if msg_type message = Some ''node_added''
             then [Dispatch (AddGraphNode (msg_data message))]
           else if msg_type message = Some ''node_removed''
             then (case msg_data message of
                     None \<Rightarrow> []
                   | Some (DNodeId i) \<Rightarrow> [Dispatch (RemoveGraphNode (Some i))]
                   | Some _ \<Rightarrow> [Dispatch (RemoveGraphNode None)])
           else if msg_type message = Some ''link_added''
             then [Dispatch (AddGraphLink (msg_data message))]
           else if msg_type message = Some ''link_removed''
             then [Dispatch (RemoveGraphLink (msg_data message))]
           else []))"

text \<open>
  The state of the connection effect: the \<open>isConnected\<close> flag, the variable \<open>ws\<close> (with
  the \<open>readyState\<close> of the socket it holds, \<open>None\<close> for \<open>null\<close>), the delays of the
  pending \<open>setTimeout(connectWebSocket, _)\<close> calls in the order they were made, the number
  of calls of \<open>connectWebSocket\<close> so far (the connection attempts), the number of sockets
  constructed so far, the number of \<open>ws.close()\<close> calls, and the messages sent as
  (type, topic).
\<close>

datatype readyState = CONNECTING | OPEN | CLOSING | CLOSED

record conn =
  isConnected :: bool
  ws :: "readyState option"
  timers :: "nat list"
  attempts :: nat
  constructed :: nat
  closeCalls :: nat
  sent :: "(string \<times> string) list"

definition initialConn :: conn where
  "initialConn =
     \<lparr>isConnected = False, ws = None, timers = [], attempts = 0, constructed = 0,
      closeCalls = 0, sent = []\<rparr>"

text \<open>
  \<open>connectWebSocket\<close>; the flag says whether \<open>new WebSocket\<close> throws, which sends control
  to the \<open>catch\<close> block before \<open>ws\<close> is assigned: the flag \<open>isConnected\<close> is cleared
  and no handler exists that could schedule another attempt.
\<close>

definition connectWebSocket :: "bool \<Rightarrow> conn \<Rightarrow> conn" where
  "connectWebSocket throws s =
     (if throws then s\<lparr>isConnected := False, attempts := attempts s + 1\<rparr>
      else s\<lparr>ws := Some CONNECTING, attempts := attempts s + 1,
             constructed := constructed s + 1\<rparr>)"

definition onopen :: "conn \<Rightarrow> conn" where
  "onopen s = s\<lparr>isConnected := True, sent := sent s @ [(''subscribe'', ''graph'')]\<rparr>"

definition onerror :: "conn \<Rightarrow> conn" where
  "onerror s = s\<lparr>isConnected := False\<rparr>"

definition onclose :: "conn \<Rightarrow> conn" where
  "onclose s = s\<lparr>isConnected := False, timers := timers s @ [5000]\<rparr>"

text \<open>The cleanup function returned by the effect.\<close>

definition cleanup :: "conn \<Rightarrow> conn" where
  "cleanup s =
     (if ws s = Some OPEN then s\<lparr>ws := Some CLOSING, closeCalls := closeCalls s + 1\<rparr>
      else s)"

text \<open>
  What the event loop delivers. The open and close events of the socket held in \<open>ws\<close> set
  its \<open>readyState\<close> before the handler runs; a timer event fires the oldest pending
  timeout, which calls \<open>connectWebSocket\<close>, and carries the flag that says whether the
  constructor throws in that call; \<open>Unmount\<close> runs the cleanup.
\<close>

datatype event = Open | Error | Close | Timer bool | Unmount

definition step :: "event \<Rightarrow> conn \<Rightarrow> conn" where
  "step e s =
     (case e of
        Open \<Rightarrow> onopen (s\<lparr>ws := Some OPEN\<rparr>)
      | Error \<Rightarrow> onerror s
      | Close \<Rightarrow> onclose (s\<lparr>ws := Some CLOSED\<rparr>)
      | Timer throws \<Rightarrow>
          (case timers s of
             [] \<Rightarrow> s
           | d # ds \<Rightarrow> connectWebSocket throws (s\<lparr>timers := ds\<rparr>))
      | Unmount \<Rightarrow> cleanup s)"

definition run :: "event list \<Rightarrow> conn \<Rightarrow> conn" where
  "run es s = fold step es s"

text \<open>
  A channel failure, as the WebSocket of the renderer reports it: the close event, which an
  error event precedes when the connection did not close cleanly. The socket never delivers
  an error event without the close event after it.
\<close>

definition channelFailure :: "bool \<Rightarrow> event list" where
  "channelFailure withError = (if withError then [Error] else []) @ [Close]"

text \<open>
  A channel failure followed by the firing of the timer, which is the reconnect attempt; the
  second flag says whether the constructor throws in that attempt. \<open>failures bs\<close> is one
  such round for each element of \<open>bs\<close>.
\<close>

definition failure :: "bool \<times> bool \<Rightarrow> event list" where
  "failure b = channelFailure (fst b) @ [Timer (snd b)]"


section \<open>The graph store\<close>

text \<open>
  The reducer of the graph store (\<open>state.graph\<close>), which handles the actions
  \<open>ADD_GRAPH_NODE\<close>, \<open>REMOVE_GRAPH_NODE\<close>, \<open>ADD_GRAPH_LINK\<close> and \<open>REMOVE_GRAPH_LINK\<close>
  dispatched by \<open>ws.onmessage\<close>, is not among the sources. The definitions of this section
  follow the store contract of the specification instead.
\<close>

text \<open>
  Modelled from the spec: the kinds of delta accepted by \<open>applyDelta(kind, payload)\<close> of the
  missing store reducer: node added, node removed, link added, link removed.
\<close>

datatype delta = NodeAdded node | NodeRemoved string | LinkAdded link | LinkRemoved link

text \<open>
  Modelled from the spec: the decoding of a dispatched action by the missing store reducer.
  A malformed delta (one whose required fields are missing) is ignored, and the actions
  that are not deltas are none.
\<close>

definition toDelta :: "action \<Rightarrow> delta option" where
  "toDelta a =
     (case a of
        AddGraphNode (Some (DNode n)) \<Rightarrow> Some (NodeAdded n)
      | RemoveGraphNode (Some i) \<Rightarrow> Some (NodeRemoved i)
      | AddGraphLink (Some (DLink l)) \<Rightarrow> Some (LinkAdded l)
      | RemoveGraphLink (Some (DLink l)) \<Rightarrow> Some (LinkRemoved l)
      | _ \<Rightarrow> None)"

text \<open>
  Modelled from the spec: the tests used by the missing store reducer. A node id is present
  in the snapshot; a link references a node id (endpoints in either form resolve to ids); two
  links match by (source id, target id, type).
\<close>

definition hasNode :: "graph_data \<Rightarrow> string \<Rightarrow> bool" where
  "hasNode g i = (i \<in> set (map node_id (nodes g)))"

definition references :: "string \<Rightarrow> link \<Rightarrow> bool" where
  "references i l = (endpointId (source l) = i \<or> endpointId (target l) = i)"

definition sameLink :: "link \<Rightarrow> link \<Rightarrow> bool" where
  "sameLink k l =
     (endpointId (source k) = endpointId (source l) \<and>
      endpointId (target k) = endpointId (target l) \<and>
      link_type k = link_type l)"

text \<open>
  Modelled from the spec: \<open>applyDelta\<close> of the missing store reducer.
  \<^item> node added: inserts the node; no-op if the id is already present;
  \<^item> node removed: removes the node and every link referencing it;
  \<^item> link added: inserts the link; rejected if either endpoint id is absent;
  \<^item> link removed: removes the matching link by (source id, target id, type).
\<close>

fun applyDelta :: "delta \<Rightarrow> graph_data \<Rightarrow> graph_data" where
  "applyDelta (NodeAdded n) g =
     (if hasNode g (node_id n) then g else g\<lparr>nodes := nodes g @ [n]\<rparr>)"
| "applyDelta (NodeRemoved i) g =
     \<lparr>nodes = filter (\<lambda>n. node_id n \<noteq> i) (nodes g),
      links = filter (\<lambda>l. \<not> references i l) (links g)\<rparr>"
| "applyDelta (LinkAdded l) g =
     (if hasNode g (endpointId (source l)) \<and> hasNode g (endpointId (target l))
      then g\<lparr>links := links g @ [l]\<rparr> else g)"
| "applyDelta (LinkRemoved l) g = g\<lparr>links := filter (\<lambda>k. \<not> sameLink k l) (links g)\<rparr>"

definition applyDeltas :: "delta list \<Rightarrow> graph_data \<Rightarrow> graph_data" where
  "applyDeltas ds g = fold applyDelta ds g"

text \<open>
  The deltas that a sequence of push messages sends to the store: the actions dispatched by
  \<open>onmessage\<close>, in order, without the malformed ones.
\<close>

definition dispatched :: "effect \<Rightarrow> delta list" where
  "dispatched e =
     (case e of
        Refetch \<Rightarrow> []
      | Dispatch a \<Rightarrow> (case toDelta a of None \<Rightarrow> [] | Some d \<Rightarrow> [d]))"

definition pushDeltas :: "message option list \<Rightarrow> delta list" where
  "pushDeltas ms = concat (map dispatched (concat (map onmessage ms)))"

text \<open>
  Modelled from the spec: the invariant of the snapshot kept by the missing store reducer.
  Both endpoints of every link resolve to a node of the snapshot.
\<close>

definition link_invariant :: "graph_data \<Rightarrow> bool" where
  "link_invariant g =
     list_all (\<lambda>l. hasNode g (endpointId (source l)) \<and> hasNode g (endpointId (target l)))
       (links g)"

section \<open>Notions used by the claims\<close>

text \<open>
  Containment when letter case is ignored, stated without any lowering function: two code
  units are the same letter when they are equal or are the capital and the small form of one
  of the letters \<open>A\<close> to \<open>Z\<close>; \<open>t\<close> matches at the start of \<open>s\<close> when it agrees with
  a prefix of \<open>s\<close> letter by letter; \<open>s\<close> contains \<open>t\<close> when \<open>t\<close> matches at some
  position of \<open>s\<close>.
\<close>

definition sameLetter :: "nat \<Rightarrow> nat \<Rightarrow> bool" where
  "sameLetter a b =
     (a = b \<or> (65 \<le> a \<and> a \<le> 90 \<and> b = a + 32) \<or> (65 \<le> b \<and> b \<le> 90 \<and> a = b + 32))"

fun matchesAt :: "jsstring \<Rightarrow> jsstring \<Rightarrow> bool" where
  "matchesAt s [] = True"
| "matchesAt [] (b # t) = False"
| "matchesAt (a # s) (b # t) = (sameLetter a b \<and> matchesAt s t)"

fun containsCI :: "jsstring \<Rightarrow> jsstring \<Rightarrow> bool" where
  "containsCI [] t = (t = [])"
| "containsCI (a # s) t = (matchesAt (a # s) t \<or> containsCI s t)"

text \<open>
  The test that the code makes: the lower-case form of \<open>s\<close> includes the lower-case form
  of \<open>t\<close>; on a property value, which has to be a string for that.
\<close>

definition lowerIncludes :: "(jsstring \<Rightarrow> jsstring) \<Rightarrow> jsstring \<Rightarrow> jsstring \<Rightarrow> bool" where
  "lowerIncludes lower s t = sublist (lower t) (lower s)"

definition propIncludes :: "(jsstring \<Rightarrow> jsstring) \<Rightarrow> prim \<Rightarrow> jsstring \<Rightarrow> bool" where
  "propIncludes lower v t = (case v of PStr s \<Rightarrow> lowerIncludes lower s t | _ \<Rightarrow> False)"

text \<open>
  ASCII strings, and what \<open>String.prototype.toLowerCase\<close> does on them: the letters \<open>A\<close>
  to \<open>Z\<close> (65 to 90) move to \<open>a\<close> to \<open>z\<close>, every other code unit stays. A lowering
  function is faithful on ASCII when it does the same.
\<close>

definition isAscii :: "jsstring \<Rightarrow> bool" where
  "isAscii s = list_all (\<lambda>c. c < 128) s"

definition asciiLowerUnit :: "nat \<Rightarrow> nat" where
  "asciiLowerUnit c = (if 65 \<le> c \<and> c \<le> 90 then c + 32 else c)"

definition lowersAscii :: "(jsstring \<Rightarrow> jsstring) \<Rightarrow> bool" where
  "lowersAscii lower = (\<forall>s. isAscii s \<longrightarrow> lower s = map asciiLowerUnit s)"

text \<open>
  A lowering function for the examples. It agrees with \<open>String.prototype.toLowerCase\<close> on
  the words made of the Basic Latin letters, the Latin-1 letters \<open>U+00C0\<close> to \<open>U+00FE\<close>
  and the Greek letters \<open>U+0391\<close> to \<open>U+03CE\<close>, and on all ASCII strings: a capital moves
  32 code units up, and the capital sigma (931) becomes the final small sigma (962) when a
  letter precedes it and no letter follows it, the small sigma (963) otherwise. Nothing is
  claimed of it on other strings.
\<close>

definition lowerUnit :: "nat \<Rightarrow> nat" where
  "lowerUnit c =
     (if (65 \<le> c \<and> c \<le> 90) \<or> (192 \<le> c \<and> c \<le> 222 \<and> c \<noteq> 215) \<or>
         (913 \<le> c \<and> c \<le> 939 \<and> c \<noteq> 930)
      then c + 32 else c)"

definition isLetterUnit :: "nat \<Rightarrow> bool" where
  "isLetterUnit c =
     ((65 \<le> c \<and> c \<le> 90) \<or> (97 \<le> c \<and> c \<le> 122) \<or>
      (192 \<le> c \<and> c \<le> 255 \<and> c \<noteq> 215 \<and> c \<noteq> 247) \<or>
      (913 \<le> c \<and> c \<le> 974 \<and> c \<noteq> 930))"

fun lowerFrom :: "bool \<Rightarrow> jsstring \<Rightarrow> jsstring" where
  "lowerFrom p [] = []"
| "lowerFrom p (c # cs) =
     (if c = 931
      then (if p \<and> \<not> (case cs of [] \<Rightarrow> False | d # ds \<Rightarrow> isLetterUnit d) then 962 else 963)
      else lowerUnit c) # lowerFrom (isLetterUnit c) cs"

definition exampleLower :: "jsstring \<Rightarrow> jsstring" where
  "exampleLower s = lowerFrom False s"

text \<open>The name and the path of a node are strings once \<open>|| ''\<close> has been applied.\<close>

definition isStr :: "prim \<Rightarrow> bool" where
  "isStr v = (case v of PStr s \<Rightarrow> True | _ \<Rightarrow> False)"

definition stringProps :: "node \<Rightarrow> bool" where
  "stringProps n = (isStr (strProp n ''name'') \<and> isStr (strProp n ''path''))"

text \<open>
  An endpoint is resolvable when the expression \<open>e.id || e\<close> yields its node id: every bare
  id is, and a node object is unless its id is the empty string.
\<close>

definition resolvable :: "endpoint \<Rightarrow> bool" where
  "resolvable e = (case e of EId s \<Rightarrow> True | ERef n \<Rightarrow> node_id n \<noteq> '''')"

definition resolved :: "link list \<Rightarrow> bool" where
  "resolved ls = list_all (\<lambda>l. resolvable (source l) \<and> resolvable (target l)) ls"

text \<open>A node id is visible in a view when some node of the view carries it.\<close>

definition visibleId :: "graph_data \<Rightarrow> string \<Rightarrow> bool" where
  "visibleId vis i = (i \<in> set (map node_id (nodes vis)))"

text \<open>
  Two node ids are directly linked when some link joins them, in either direction; a link
  is incident to a node id when one of its endpoints denotes it.
\<close>

definition linked :: "link list \<Rightarrow> string \<Rightarrow> string \<Rightarrow> bool" where
  "linked ls i j =
     list_ex (\<lambda>l. (endpointId (source l) = i \<and> endpointId (target l) = j) \<or>
                  (endpointId (target l) = i \<and> endpointId (source l) = j)) ls"

definition incident :: "string \<Rightarrow> link \<Rightarrow> bool" where
  "incident i l = (endpointId (source l) = i \<or> endpointId (target l) = i)"

text \<open>An action that replaces the snapshot of the store.\<close>

definition setsData :: "action \<Rightarrow> bool" where
  "setsData a = (case a of SetGraphData d \<Rightarrow> True | _ \<Rightarrow> False)"

section \<open>Example data\<close>

text \<open>The initial \<open>filters\<close> state of the component.\<close>

definition defaultFilters :: filters where
  "defaultFilters =
     \<lparr>nodeTypes = [''File'', ''Class'', ''Method'', ''Function'', ''LintError''],
      showErrors = True, showCalls = True, searchTerm = []\<rparr>"

definition exA :: node where
  "exA = \<lparr>node_id = ''A'', node_type = ''File'',
          properties = Some [(''name'', PStr (str ''Alpha.js'')),
                             (''path'', PStr (str ''src/Alpha.js''))]\<rparr>"

definition exB :: node where
  "exB = \<lparr>node_id = ''B'', node_type = ''Class'',
          properties = Some [(''name'', PStr (str ''Beta''))]\<rparr>"

definition exSnapshot :: graph_data where
  "exSnapshot =
     \<lparr>nodes = [exA, exB],
      links = [\<lparr>source = EId ''A'', target = EId ''B'', link_type = ''CONTAINS''\<rparr>]\<rparr>"

text \<open>
  A file named by the two Greek capitals alpha and sigma (\<open>U+0391 U+03A3\<close>), and the search
  term that is the capital sigma alone.
\<close>

definition exSigma :: node where
  "exSigma = \<lparr>node_id = ''S'', node_type = ''File'',
              properties = Some [(''name'', PStr [913, 931])]\<rparr>"

definition exSigmaSnapshot :: graph_data where
  "exSigmaSnapshot = \<lparr>nodes = [exSigma], links = []\<rparr>"

text \<open>A file whose name is the number 42.\<close>

definition exNumbered :: node where
  "exNumbered = \<lparr>node_id = ''N'', node_type = ''File'',
                 properties = Some [(''name'', PNum 42)]\<rparr>"

text \<open>A node whose id is the empty string, and a link that the layout has resolved to it.\<close>

definition exE :: node where
  "exE = \<lparr>node_id = '''', node_type = ''File'', properties = None\<rparr>"

definition exRefLink :: link where
  "exRefLink = \<lparr>source = ERef exB, target = ERef exE, link_type = ''CONTAINS''\<rparr>"

definition exEmptyIdSnapshot :: graph_data where
  "exEmptyIdSnapshot = \<lparr>nodes = [exB, exE], links = [exRefLink]\<rparr>"

text \<open>A backend response \<open>{error: 'backend down'}\<close>.\<close>

definition exErrorResponse :: response where
  "exErrorResponse = emptyResponse\<lparr>resp_error := Some ''backend down''\<rparr>"

text \<open>The connection after mount and a successful open.\<close>

definition exConnected :: conn where
  "exConnected = run [Open] (connectWebSocket False initialConn)"

text \<open>The push message \<open>{type: 'node_removed', data: {nodeId: 'B'}}\<close>.\<close>

definition exRemoveB :: "message option" where
  "exRemoveB = Some \<lparr>msg_type = Some ''node_removed'', msg_data = Some (DNodeId ''B'')\<rparr>"

section \<open>Properties of the string functions\<close>

lemma includes_sublist: "str_includes s t \<longleftrightarrow> sublist t s"
  by (induction s) (auto simp: sublist_Cons_right)

lemma map_eq_all2: "map f u = map f t \<longleftrightarrow> list_all2 (\<lambda>a b. f a = f b) u t"
proof (induction u arbitrary: t)
  case Nil
  then show ?case by simp
next
  case (Cons a u)
  then show ?case by (cases t) auto
qed

text \<open>A run of a mapped list is the image of a run of the list.\<close>

lemma sublist_map_iff:
  "sublist (map f t) (map f s) \<longleftrightarrow> (\<exists>u. sublist u s \<and> map f u = map f t)"
proof
  assume "sublist (map f t) (map f s)"
  then obtain ps ss where "map f s = ps @ map f t @ ss"
    by (auto simp: sublist_def)
  then obtain p v where pv: "s = p @ v" and v: "map f t @ ss = map f v"
    unfolding map_eq_append_conv by blast
  from v obtain u r where ur: "v = u @ r" and u: "map f u = map f t"
    unfolding append_eq_map_conv by auto
  from pv ur have "sublist u s"
    by (auto simp: sublist_def)
  with u show "\<exists>u. sublist u s \<and> map f u = map f t"
    by blast
next
  assume "\<exists>u. sublist u s \<and> map f u = map f t"
  then obtain u where su: "sublist u s" and ut: "map f u = map f t"
    by blast
  from map_mono_sublist [OF su, of f] ut show "sublist (map f t) (map f s)"
    by simp
qed

text \<open>
  The recursive definition of containment up to letter case says what it should: some run
  of \<open>s\<close> agrees with \<open>t\<close> letter by letter.
\<close>

lemma matchesAt_iff: "matchesAt s t \<longleftrightarrow> (\<exists>u. prefix u s \<and> list_all2 sameLetter u t)"
proof (induction s t rule: matchesAt.induct)
  case (1 s)
  then show ?case by auto
next
  case (2 b t)
  then show ?case by auto
next
  case (3 a s b t)
  show ?case
  proof
    assume "matchesAt (a # s) (b # t)"
    with 3 obtain u where "sameLetter a b" "prefix u s" "list_all2 sameLetter u t"
      by auto
    then have "prefix (a # u) (a # s) \<and> list_all2 sameLetter (a # u) (b # t)"
      by simp
    then show "\<exists>u. prefix u (a # s) \<and> list_all2 sameLetter u (b # t)"
      by blast
  next
    assume "\<exists>u. prefix u (a # s) \<and> list_all2 sameLetter u (b # t)"
    then obtain u where u: "prefix u (a # s)" "list_all2 sameLetter u (b # t)"
      by blast
    from u(2) obtain c w where w: "u = c # w" "sameLetter c b" "list_all2 sameLetter w t"
      by (auto simp: list_all2_Cons2)
    with u(1) have "c = a" "prefix w s"
      by simp_all
    with w 3 show "matchesAt (a # s) (b # t)"
      by auto
  qed
qed

lemma containsCI_iff: "containsCI s t \<longleftrightarrow> (\<exists>u. sublist u s \<and> list_all2 sameLetter u t)"
proof (induction s)
  case Nil
  then show ?case by auto
next
  case (Cons a s)
  have "(\<exists>u. sublist u (a # s) \<and> list_all2 sameLetter u t) \<longleftrightarrow>
        (\<exists>u. prefix u (a # s) \<and> list_all2 sameLetter u t) \<or>
        (\<exists>u. sublist u s \<and> list_all2 sameLetter u t)"
    by (auto simp: sublist_Cons_right)
  with Cons show ?case
    by (simp add: matchesAt_iff)
qed

lemma containsCI_literal: "sublist t s \<Longrightarrow> containsCI s t"
proof -
  assume "sublist t s"
  moreover have "list_all2 sameLetter t t"
    by (simp add: list_all2_same sameLetter_def)
  ultimately show ?thesis
    unfolding containsCI_iff by blast
qed

text \<open>Two code units have the same ASCII lowering exactly when they are the same letter.\<close>

lemma asciiLowerUnit_eq_iff: "asciiLowerUnit a = asciiLowerUnit b \<longleftrightarrow> sameLetter a b"
  by (auto simp: asciiLowerUnit_def sameLetter_def)

text \<open>
  On ASCII strings the test of the code is containment up to letter case, for every lowering
  function that is faithful on ASCII.
\<close>

lemma lowerIncludes_ascii:
  assumes "lowersAscii lower" and "isAscii s" and "isAscii t"
  shows "lowerIncludes lower s t \<longleftrightarrow> containsCI s t"
proof -
  from assms have "lower s = map asciiLowerUnit s" "lower t = map asciiLowerUnit t"
    by (simp_all add: lowersAscii_def)
  then have "lowerIncludes lower s t \<longleftrightarrow>
      (\<exists>u. sublist u s \<and> map asciiLowerUnit u = map asciiLowerUnit t)"
    by (simp add: lowerIncludes_def sublist_map_iff)
  also have "\<dots> \<longleftrightarrow> (\<exists>u. sublist u s \<and> list_all2 sameLetter u t)"
    by (simp add: map_eq_all2 asciiLowerUnit_eq_iff)
  finally show ?thesis
    by (simp add: containsCI_iff)
qed

text \<open>The lowering function of the examples is faithful on ASCII.\<close>

lemma lowerFrom_ascii: "isAscii s \<Longrightarrow> lowerFrom p s = map asciiLowerUnit s"
  by (induction s arbitrary: p) (auto simp: isAscii_def lowerUnit_def asciiLowerUnit_def)

lemma exampleLower_ascii: "lowersAscii exampleLower"
  by (simp add: lowersAscii_def exampleLower_def lowerFrom_ascii)

section \<open>The filtered view\<close>

text \<open>The filter returns the elements that pass, unless the callback throws on one.\<close>

lemma filterE_Inr_iff:
  "filterE p xs = Inr ys \<longleftrightarrow>
     (\<forall>x \<in> set xs. \<exists>b. p x = Inr b) \<and> ys = filter (\<lambda>x. p x = Inr True) xs"
proof (induction xs arbitrary: ys)
  case Nil
  then show ?case by auto
next
  case (Cons x xs)
  show ?case
  proof (cases "p x")
    case (Inl e)
    then show ?thesis by auto
  next
    case (Inr b)
    then show ?thesis
      using Cons.IH by (cases "filterE p xs") auto
  qed
qed

lemma filterE_returns_iff:
  "(\<exists>ys. filterE p xs = Inr ys) \<longleftrightarrow> (\<forall>x \<in> set xs. \<exists>b. p x = Inr b)"
  by (simp add: filterE_Inr_iff)

text \<open>
  The callback throws exactly on a node of an allowed type whose name or path is not a
  string, when the search term is not empty.
\<close>

lemma nodePasses_returns_iff:
  "(\<exists>b. nodePasses lower f n = Inr b) \<longleftrightarrow>
     (node_type n \<in> set (nodeTypes f) \<and> searchTerm f \<noteq> [] \<longrightarrow> stringProps n)"
proof (cases "node_type n \<in> set (nodeTypes f) \<and> searchTerm f \<noteq> []")
  case False
  then show ?thesis
    by (auto simp: nodePasses_def)
next
  case True
  show ?thesis
  proof (cases "strProp n ''name''")
    case (PStr s)
    then show ?thesis
      using True
      by (cases "strProp n ''path''")
        (auto simp: nodePasses_def nodeName_def nodePath_def callToLowerCase_def
          stringProps_def isStr_def)
  qed (use True in \<open>simp_all add: nodePasses_def nodeName_def callToLowerCase_def
        stringProps_def isStr_def\<close>)
qed

lemma nodePasses_True_iff:
  assumes "nodePasses lower f n = Inr b"
  shows "b \<longleftrightarrow>
     node_type n \<in> set (nodeTypes f) \<and>
     (searchTerm f = [] \<or> propIncludes lower (strProp n ''name'') (searchTerm f) \<or>
        propIncludes lower (strProp n ''path'') (searchTerm f)) \<and>
     (showErrors f \<or> node_type n \<noteq> ''LintError'')"
proof (cases "node_type n \<in> set (nodeTypes f) \<and> searchTerm f \<noteq> []")
  case False
  with assms show ?thesis
    by (auto simp: nodePasses_def errorGate_def split: if_splits)
next
  case True
  with assms nodePasses_returns_iff [of lower f n] have "stringProps n"
    by blast
  then obtain s p where sp: "strProp n ''name'' = PStr s" "strProp n ''path'' = PStr p"
    by (auto simp: stringProps_def isStr_def split: prim.splits)
  with assms True show ?thesis
    by (auto simp: nodePasses_def nodeName_def nodePath_def callToLowerCase_def
        searchLower_def errorGate_def propIncludes_def lowerIncludes_def includes_sublist
        split: if_splits)
qed

lemma filteredData_Inr:
  assumes "filteredData lower (Some g) f = Inr v"
  shows "nodes v = filter (\<lambda>n. nodePasses lower f n = Inr True) (nodes g)"
    and "links v = filter (linkPasses f (nodeIds (nodes v))) (links g)"
    and "\<forall>n \<in> set (nodes g). \<exists>b. nodePasses lower f n = Inr b"
  using assms
  by (auto simp: filteredData_def filterE_Inr_iff split: sum.splits)

text \<open>The derivation returns a view whenever the names and paths are strings.\<close>

lemma filteredData_returns_iff:
  "(\<exists>v. filteredData lower (Some g) f = Inr v) \<longleftrightarrow>
     (\<forall>n \<in> set (nodes g).
        node_type n \<in> set (nodeTypes f) \<and> searchTerm f \<noteq> [] \<longrightarrow> stringProps n)"
proof -
  have "(\<exists>v. filteredData lower (Some g) f = Inr v) \<longleftrightarrow>
        (\<exists>ns. filterE (nodePasses lower f) (nodes g) = Inr ns)"
    by (auto simp: filteredData_def split: sum.splits)
  then show ?thesis
    by (simp add: filterE_returns_iff nodePasses_returns_iff)
qed

lemma node_in_view_iff:
  assumes "filteredData lower (Some g) f = Inr v"
  shows "n \<in> set (nodes v) \<longleftrightarrow>
     n \<in> set (nodes g) \<and>
     node_type n \<in> set (nodeTypes f) \<and>
     (searchTerm f = [] \<or> propIncludes lower (strProp n ''name'') (searchTerm f) \<or>
        propIncludes lower (strProp n ''path'') (searchTerm f)) \<and>
     (showErrors f \<or> node_type n \<noteq> ''LintError'')"
proof (cases "n \<in> set (nodes g)")
  case False
  with filteredData_Inr(1) [OF assms] show ?thesis
    by simp
next
  case True
  with filteredData_Inr(3) [OF assms] obtain b where b: "nodePasses lower f n = Inr b"
    by blast
  from filteredData_Inr(1) [OF assms] True b have "n \<in> set (nodes v) \<longleftrightarrow> b"
    by simp
  with nodePasses_True_iff [OF b] True show ?thesis
    by simp
qed

text \<open>
  C3, as stated: a node whose name contains the search term, letter case ignored, is in the
  view. The file named \<open>U+0391 U+03A3\<close> contains the search term \<open>U+03A3\<close> as it stands,
  and the view hides it: lowering turns the name into \<open>U+03B1 U+03C2\<close>, with the final
  sigma, and the term into \<open>U+03C3\<close>, which the lowered name does not include.
\<close>

theorem final_sigma_counterexample:
  "strProp exSigma ''name'' = PStr [913, 931] \<and>
   containsCI [913, 931] [931] \<and>
   exampleLower [913, 931] = [945, 962] \<and>
   exampleLower [931] = [963] \<and>
   filteredData exampleLower (Some exSigmaSnapshot) (defaultFilters\<lparr>searchTerm := [931]\<rparr>) =
     Inr \<lparr>nodes = [], links = []\<rparr>"
  by (simp add: filteredData_def nodePasses_def nodeName_def nodePath_def searchLower_def
      callToLowerCase_def strProp_def truthyPrim_def exampleLower_def lowerUnit_def
      isLetterUnit_def sameLetter_def exSigmaSnapshot_def exSigma_def defaultFilters_def)

text \<open>
  C3, amended: whenever the derivation returns a view, a node of the snapshot is in it if
  and only if its type is among the allowed node types, and the search term is empty or the
  lower-case form of the node's name or path includes the lower-case form of the search
  term, and \<open>showErrors\<close> is on or the node's type is not \<open>LintError\<close>. The derivation
  returns a view whenever the name and the path of every node are strings (a truthy value
  that is not a string makes it throw, which this statement leaves out). On ASCII strings
  the test is containment with letter case ignored.
\<close>

theorem node_filter_iff:
  "(filteredData lower (Some g) f = Inr v \<longrightarrow>
      (n \<in> set (nodes v) \<longleftrightarrow>
         n \<in> set (nodes g) \<and>
         node_type n \<in> set (nodeTypes f) \<and>
         (searchTerm f = [] \<or> propIncludes lower (strProp n ''name'') (searchTerm f) \<or>
            propIncludes lower (strProp n ''path'') (searchTerm f)) \<and>
         (showErrors f \<or> node_type n \<noteq> ''LintError''))) \<and>
   (list_all stringProps (nodes g) \<longrightarrow> (\<exists>w. filteredData lower (Some g) f = Inr w)) \<and>
   (lowersAscii lower \<and> isAscii s \<and> isAscii t \<longrightarrow>
      (lowerIncludes lower s t \<longleftrightarrow> containsCI s t))"
proof (intro conjI)
  show "filteredData lower (Some g) f = Inr v \<longrightarrow>
      (n \<in> set (nodes v) \<longleftrightarrow>
         n \<in> set (nodes g) \<and>
         node_type n \<in> set (nodeTypes f) \<and>
         (searchTerm f = [] \<or> propIncludes lower (strProp n ''name'') (searchTerm f) \<or>
            propIncludes lower (strProp n ''path'') (searchTerm f)) \<and>
         (showErrors f \<or> node_type n \<noteq> ''LintError''))"
    using node_in_view_iff [of lower g f v n] by blast
  show "list_all stringProps (nodes g) \<longrightarrow> (\<exists>w. filteredData lower (Some g) f = Inr w)"
    by (simp add: filteredData_returns_iff list_all_iff)
  show "lowersAscii lower \<and> isAscii s \<and> isAscii t \<longrightarrow>
      (lowerIncludes lower s t \<longleftrightarrow> containsCI s t)"
    using lowerIncludes_ascii [of lower s t] by blast
qed

theorem node_filter_iff_witness:
  "filteredData exampleLower (Some exSnapshot) (defaultFilters\<lparr>searchTerm := str ''ALPHA''\<rparr>) =
     Inr \<lparr>nodes = [exA], links = []\<rparr> \<and>
   list_all stringProps (nodes exSnapshot) \<and>
   propIncludes exampleLower (strProp exA ''name'') (str ''ALPHA'') \<and>
   \<not> propIncludes exampleLower (strProp exB ''name'') (str ''ALPHA'') \<and>
   lowersAscii exampleLower \<and> isAscii (str ''Alpha.js'') \<and> isAscii (str ''ALPHA'') \<and>
   containsCI (str ''Alpha.js'') (str ''ALPHA'') \<and>
   lowerIncludes exampleLower (str ''Alpha.js'') (str ''ALPHA'')"
proof -
  let ?f = "defaultFilters\<lparr>searchTerm := str ''ALPHA''\<rparr>"
  have strs: "list_all stringProps (nodes exSnapshot)"
    by (simp add: stringProps_def isStr_def strProp_def truthyPrim_def exSnapshot_def
        exA_def exB_def)
  have ascii: "isAscii (str ''Alpha.js'')" "isAscii (str ''ALPHA'')"
    by (simp_all add: isAscii_def str_def)
  have ci: "containsCI (str ''Alpha.js'') (str ''ALPHA'')"
    by (simp add: str_def sameLetter_def)
  have name: "strProp exA ''name'' = PStr (str ''Alpha.js'')"
    by (simp add: strProp_def truthyPrim_def exA_def str_def)
  from node_filter_iff [of exampleLower exSnapshot ?f _ exA "str ''Alpha.js''" "str ''ALPHA''"]
    exampleLower_ascii ascii ci
  have inc: "lowerIncludes exampleLower (str ''Alpha.js'') (str ''ALPHA'')"
    by blast
  have view: "filteredData exampleLower (Some exSnapshot) ?f =
      Inr \<lparr>nodes = [exA], links = []\<rparr>"
    by (simp add: filteredData_def nodePasses_def nodeName_def nodePath_def searchLower_def
        callToLowerCase_def strProp_def truthyPrim_def errorGate_def exampleLower_def
        lowerUnit_def isLetterUnit_def linkPasses_def nodeIds_def endpointKey_def
        exSnapshot_def exA_def exB_def defaultFilters_def str_def)
  have B: "exB \<in> set (nodes exSnapshot)" "exB \<notin> set (nodes \<lparr>nodes = [exA], links = []\<rparr>)"
    "node_type exB \<in> set (nodeTypes ?f)" "showErrors ?f"
    by (simp_all add: exSnapshot_def exA_def exB_def defaultFilters_def)
  from view B
    node_filter_iff [of exampleLower exSnapshot ?f "\<lparr>nodes = [exA], links = []\<rparr>" exB]
  have hidden: "\<not> propIncludes exampleLower (strProp exB ''name'') (str ''ALPHA'')"
    by simp
  from strs ascii ci name inc view hidden exampleLower_ascii show ?thesis
    by (simp add: propIncludes_def)
qed

text \<open>
  A truthy name that is not a string: the derivation throws as soon as the search term is
  not empty, and returns the node while it is empty.
\<close>

lemma numbered_name_throws:
  "filteredData lower (Some \<lparr>nodes = [exNumbered], links = []\<rparr>)
     (defaultFilters\<lparr>searchTerm := str ''a''\<rparr>) = Inl TypeError \<and>
   filteredData lower (Some \<lparr>nodes = [exNumbered], links = []\<rparr>) defaultFilters =
     Inr \<lparr>nodes = [exNumbered], links = []\<rparr>"
  by (simp add: filteredData_def nodePasses_def nodeName_def callToLowerCase_def strProp_def
      truthyPrim_def errorGate_def exNumbered_def defaultFilters_def str_def)

text \<open>
  A name with an accent: the file named \<open>U+00C9\<close> is shown for the search term \<open>U+00E9\<close>.
\<close>

lemma accented_name_found:
  "filteredData exampleLower
     (Some \<lparr>nodes = [exA\<lparr>properties := Some [(''name'', PStr [201])]\<rparr>], links = []\<rparr>)
     (defaultFilters\<lparr>searchTerm := [233]\<rparr>) =
   Inr \<lparr>nodes = [exA\<lparr>properties := Some [(''name'', PStr [201])]\<rparr>], links = []\<rparr>"
  by (simp add: filteredData_def nodePasses_def nodeName_def nodePath_def searchLower_def
      callToLowerCase_def strProp_def truthyPrim_def errorGate_def exampleLower_def
      lowerUnit_def isLetterUnit_def exA_def defaultFilters_def)

text \<open>
  C10: when no snapshot is present (\<open>graphData\<close> is null or undefined), the filter
  derivation returns an empty node list and an empty link list, whatever the filters are.
\<close>

theorem filteredData_no_snapshot: "filteredData lower None f = Inr \<lparr>nodes = [], links = []\<rparr>"
  by (simp add: filteredData_def)

theorem filteredData_no_snapshot_witness:
  "filteredData exampleLower None (defaultFilters\<lparr>searchTerm := str ''x'', showCalls := False\<rparr>) =
     Inr \<lparr>nodes = [], links = []\<rparr>"
  using filteredData_no_snapshot
    [of exampleLower "defaultFilters\<lparr>searchTerm := str ''x'', showCalls := False\<rparr>"]
  by simp

subsection \<open>Changing the search term\<close>

lemma propIncludes_trans:
  "propIncludes lower v t \<Longrightarrow> lowerIncludes lower t u \<Longrightarrow> propIncludes lower v u"
  unfolding propIncludes_def lowerIncludes_def
  by (cases v) (auto intro: sublist_order.order_trans)

lemma search_removed_fails:
  assumes "filteredData lower (Some g) f = Inr v"
    and "filteredData lower (Some g) (f\<lparr>searchTerm := t\<rparr>) = Inr v'"
    and "n \<in> set (nodes v)" and "n \<notin> set (nodes v')"
  shows "t \<noteq> [] \<and> \<not> propIncludes lower (strProp n ''name'') t \<and>
         \<not> propIncludes lower (strProp n ''path'') t"
  using assms(3,4)
  unfolding node_in_view_iff [OF assms(1)] node_in_view_iff [OF assms(2)]
  by auto

lemma search_refine_subset:
  assumes old: "filteredData lower (Some g) f = Inr v"
    and new: "filteredData lower (Some g) (f\<lparr>searchTerm := t\<rparr>) = Inr v'"
    and refines: "searchTerm f = [] \<or> (t \<noteq> [] \<and> lowerIncludes lower t (searchTerm f))"
  shows "set (nodes v') \<subseteq> set (nodes v)"
proof
  fix m
  assume "m \<in> set (nodes v')"
  then have m: "m \<in> set (nodes g)" "node_type m \<in> set (nodeTypes f)"
    "showErrors f \<or> node_type m \<noteq> ''LintError''"
    and s: "t = [] \<or> propIncludes lower (strProp m ''name'') t \<or>
      propIncludes lower (strProp m ''path'') t"
    unfolding node_in_view_iff [OF new] by auto
  from s refines
  have "searchTerm f = [] \<or> propIncludes lower (strProp m ''name'') (searchTerm f) \<or>
      propIncludes lower (strProp m ''path'') (searchTerm f)"
    by (auto dest: propIncludes_trans)
  with m show "m \<in> set (nodes v)"
    unfolding node_in_view_iff [OF old] by simp
qed

text \<open>On ASCII strings the hypothesis is that the new term contains the old one.\<close>

lemma search_refine_subset_ascii:
  assumes "filteredData lower (Some g) f = Inr v"
    and "filteredData lower (Some g) (f\<lparr>searchTerm := t\<rparr>) = Inr v'"
    and "lowersAscii lower" and "isAscii t" and "isAscii (searchTerm f)"
    and "containsCI t (searchTerm f)"
  shows "set (nodes v') \<subseteq> set (nodes v)"
proof -
  from assms(3-6) have inc: "lowerIncludes lower t (searchTerm f)"
    by (simp add: lowerIncludes_ascii)
  have "searchTerm f = [] \<or> t \<noteq> []"
    using assms(6) by (cases "searchTerm f") auto
  with inc search_refine_subset [OF assms(1,2)] show ?thesis
    by blast
qed

text \<open>
  C9, as stated: for criteria that differ only in the search term, the view under the new
  term never has a node that the view under the old term lacks. It fails when the terms are
  unrelated: under the old term \<open>beta\<close> the view is the node \<open>B\<close> alone, under the new
  term \<open>alpha\<close> it is the node \<open>A\<close> (named \<open>Alpha.js\<close>) alone.
\<close>

theorem search_adds_node_counterexample:
  "filteredData exampleLower (Some exSnapshot) (defaultFilters\<lparr>searchTerm := str ''beta''\<rparr>) =
     Inr \<lparr>nodes = [exB], links = []\<rparr> \<and>
   filteredData exampleLower (Some exSnapshot) (defaultFilters\<lparr>searchTerm := str ''alpha''\<rparr>) =
     Inr \<lparr>nodes = [exA], links = []\<rparr>"
  by (simp add: filteredData_def nodePasses_def nodeName_def nodePath_def searchLower_def
      callToLowerCase_def strProp_def truthyPrim_def errorGate_def exampleLower_def
      lowerUnit_def isLetterUnit_def linkPasses_def nodeIds_def endpointKey_def
      exSnapshot_def exA_def exB_def defaultFilters_def str_def)

text \<open>
  That the new term contains the old one as it stands is not enough either, beyond ASCII:
  from the term \<open>U+03A3\<close> to the term \<open>U+0391 U+03A3\<close> the file named \<open>U+03B1 U+03C2\<close>
  enters the view, because the sigma of the longer term is lowered to the final sigma.
\<close>

lemma literal_containment_adds_node:
  "sublist [931] [913, 931 :: nat] \<and>
   filteredData exampleLower
     (Some \<lparr>nodes = [exSigma\<lparr>properties := Some [(''name'', PStr [945, 962])]\<rparr>], links = []\<rparr>)
     (defaultFilters\<lparr>searchTerm := [931]\<rparr>) = Inr \<lparr>nodes = [], links = []\<rparr> \<and>
   filteredData exampleLower
     (Some \<lparr>nodes = [exSigma\<lparr>properties := Some [(''name'', PStr [945, 962])]\<rparr>], links = []\<rparr>)
     (defaultFilters\<lparr>searchTerm := [913, 931]\<rparr>) =
   Inr \<lparr>nodes = [exSigma\<lparr>properties := Some [(''name'', PStr [945, 962])]\<rparr>], links = []\<rparr>"
proof -
  have "sublist [931] ([913] @ [931 :: nat])"
    by (rule sublist_append_leftI)
  then show ?thesis
    by (simp add: filteredData_def nodePasses_def nodeName_def nodePath_def searchLower_def
        callToLowerCase_def strProp_def truthyPrim_def errorGate_def exampleLower_def
        lowerUnit_def isLetterUnit_def exSigma_def defaultFilters_def)
qed

text \<open>
  C9, amended: when only the search term changes, from that of \<open>f\<close> to \<open>t\<close>, and both
  derivations return a view, every node that leaves the view fails the new test (\<open>t\<close> is
  not empty and the lower-case form of neither the name nor the path includes the lower-case
  form of \<open>t\<close>); and no node is added (the new node set is a subset of the old one) when
  the old term is empty, or the new term is not empty and its lower-case form includes the
  lower-case form of the old one.
\<close>

theorem search_change:
  "filteredData lower (Some g) f = Inr v \<and>
   filteredData lower (Some g) (f\<lparr>searchTerm := t\<rparr>) = Inr v' \<longrightarrow>
     (n \<in> set (nodes v) \<and> n \<notin> set (nodes v') \<longrightarrow>
        t \<noteq> [] \<and> \<not> propIncludes lower (strProp n ''name'') t \<and>
        \<not> propIncludes lower (strProp n ''path'') t) \<and>
     (searchTerm f = [] \<or> (t \<noteq> [] \<and> lowerIncludes lower t (searchTerm f)) \<longrightarrow>
        set (nodes v') \<subseteq> set (nodes v))"
  using search_removed_fails [of lower g f v t v' n] search_refine_subset [of lower g f v t v']
  by blast

theorem search_change_witness:
  "filteredData exampleLower (Some exSnapshot) (defaultFilters\<lparr>searchTerm := str ''a''\<rparr>) =
     Inr exSnapshot \<and>
   filteredData exampleLower (Some exSnapshot) (defaultFilters\<lparr>searchTerm := str ''Alpha''\<rparr>) =
     Inr \<lparr>nodes = [exA], links = []\<rparr> \<and>
   lowerIncludes exampleLower (str ''Alpha'') (str ''a'') \<and>
   \<not> propIncludes exampleLower (strProp exB ''name'') (str ''Alpha'') \<and>
   set (nodes \<lparr>nodes = [exA], links = []\<rparr>) \<subseteq> set (nodes exSnapshot)"
proof -
  let ?f = "defaultFilters\<lparr>searchTerm := str ''a''\<rparr>"
  have old: "filteredData exampleLower (Some exSnapshot) ?f = Inr exSnapshot"
    by (simp add: filteredData_def nodePasses_def nodeName_def nodePath_def searchLower_def
        callToLowerCase_def strProp_def truthyPrim_def errorGate_def exampleLower_def
        lowerUnit_def isLetterUnit_def linkPasses_def nodeIds_def endpointKey_def
        exSnapshot_def exA_def exB_def defaultFilters_def str_def)
  have new: "filteredData exampleLower (Some exSnapshot) (?f\<lparr>searchTerm := str ''Alpha''\<rparr>) =
      Inr \<lparr>nodes = [exA], links = []\<rparr>"
    by (simp add: filteredData_def nodePasses_def nodeName_def nodePath_def searchLower_def
        callToLowerCase_def strProp_def truthyPrim_def errorGate_def exampleLower_def
        lowerUnit_def isLetterUnit_def linkPasses_def nodeIds_def endpointKey_def
        exSnapshot_def exA_def exB_def defaultFilters_def str_def)
  have "str ''Alpha'' = [65, 108, 112, 104, 97]" "str ''a'' = [97]"
    by (simp_all add: str_def)
  moreover have "sublist [97] ([97] @ [108, 112, 104, 97 :: nat])"
    by (rule sublist_append_rightI)
  ultimately have inc: "lowerIncludes exampleLower (str ''Alpha'') (str ''a'')"
    by (simp add: lowerIncludes_def exampleLower_def lowerUnit_def isLetterUnit_def)
  have B: "exB \<in> set (nodes exSnapshot)" "exB \<notin> set (nodes \<lparr>nodes = [exA], links = []\<rparr>)"
    "str ''Alpha'' \<noteq> []"
    by (simp_all add: exSnapshot_def exA_def exB_def str_def)
  from old new inc B
    search_change [of exampleLower exSnapshot ?f exSnapshot "str ''Alpha''"
      "\<lparr>nodes = [exA], links = []\<rparr>" exB]
  show ?thesis
    by simp
qed

subsection \<open>Links of the view\<close>

lemma endpointKey_in_nodeIds:
  "endpointKey e \<in> nodeIds ns \<Longrightarrow> endpointId e \<in> node_id ` set ns"
  by (cases e) (auto simp: endpointKey_def endpointId_def nodeIds_def split: if_splits)

lemma endpointKey_resolvable: "resolvable e \<Longrightarrow> endpointKey e = JStr (endpointId e)"
  by (cases e) (auto simp: endpointKey_def endpointId_def resolvable_def)

lemma resolvable_in_nodeIds:
  "resolvable e \<Longrightarrow> endpointKey e \<in> nodeIds ns \<longleftrightarrow> endpointId e \<in> node_id ` set ns"
  by (auto simp: endpointKey_resolvable nodeIds_def)

text \<open>
  Every link of the view is a link of the snapshot whose two endpoint ids are visible in the
  same view, and a \<open>CALLS\<close> link is there only if \<open>showCalls\<close> is on.
\<close>

lemma link_in_view_sound:
  assumes "filteredData lower (Some g) f = Inr v" and "l \<in> set (links v)"
  shows "l \<in> set (links g) \<and>
         visibleId v (endpointId (source l)) \<and>
         visibleId v (endpointId (target l)) \<and>
         (link_type l = ''CALLS'' \<longrightarrow> showCalls f)"
proof -
  from assms have in_g: "l \<in> set (links g)"
    and pass: "linkPasses f (nodeIds (nodes v)) l"
    by (simp_all add: filteredData_Inr(2))
  from pass have "endpointKey (source l) \<in> nodeIds (nodes v)"
    and "endpointKey (target l) \<in> nodeIds (nodes v)"
    and "link_type l = ''CALLS'' \<longrightarrow> showCalls f"
    by (auto simp: linkPasses_def split: if_splits)
  with in_g show ?thesis
    by (simp add: visibleId_def endpointKey_in_nodeIds)
qed

text \<open>
  Conversely a link with visible endpoint ids that passes the \<open>showCalls\<close> gate is in the
  view, as long as both of its endpoints are resolvable.
\<close>

lemma link_in_view_complete:
  assumes "filteredData lower (Some g) f = Inr v"
    and "l \<in> set (links g)"
    and "resolvable (source l)" and "resolvable (target l)"
    and "visibleId v (endpointId (source l))"
    and "visibleId v (endpointId (target l))"
    and "showCalls f \<or> link_type l \<noteq> ''CALLS''"
  shows "l \<in> set (links v)"
proof -
  from assms(3,5) have "endpointKey (source l) \<in> nodeIds (nodes v)"
    by (simp add: resolvable_in_nodeIds visibleId_def)
  moreover from assms(4,6) have "endpointKey (target l) \<in> nodeIds (nodes v)"
    by (simp add: resolvable_in_nodeIds visibleId_def)
  ultimately have "linkPasses f (nodeIds (nodes v)) l"
    using assms(7) by (auto simp: linkPasses_def)
  with assms(1,2) show ?thesis
    by (simp add: filteredData_Inr(2))
qed

text \<open>
  C2: every link of the filtered view has both endpoint ids in the view's node set, a
  \<open>CALLS\<close> link is in the view only if \<open>showCalls\<close> is on, and conversely a link whose
  endpoint ids are both visible and which passes the \<open>showCalls\<close> gate is in the view.
  The converse fails on the snapshot below: the link joins two visible nodes and is not a
  \<open>CALLS\<close> link, but its target is the node object with the empty id, for which
  \<open>link.target.id || link.target\<close> yields the object and the membership test fails; the
  view keeps both nodes and drops the link.
\<close>

theorem link_to_empty_id_dropped:
  "exRefLink \<in> set (links exEmptyIdSnapshot) \<and>
   filteredData lower (Some exEmptyIdSnapshot) defaultFilters =
     Inr \<lparr>nodes = [exB, exE], links = []\<rparr> \<and>
   visibleId \<lparr>nodes = [exB, exE], links = []\<rparr> (endpointId (source exRefLink)) \<and>
   visibleId \<lparr>nodes = [exB, exE], links = []\<rparr> (endpointId (target exRefLink)) \<and>
   showCalls defaultFilters"
  by (simp add: filteredData_def nodePasses_def errorGate_def linkPasses_def nodeIds_def
      endpointKey_def endpointId_def visibleId_def exEmptyIdSnapshot_def exRefLink_def
      exB_def exE_def defaultFilters_def)

section \<open>Hover emphasis\<close>

text \<open>
  The loop collects the far ends of the links at the hovered node; the accumulator is
  generalised for the induction.
\<close>

lemma fold_addConnected:
  "v \<in> fold (addConnected node) ls acc \<longleftrightarrow>
     v \<in> acc \<or>
     (\<exists>l \<in> set ls.
        (endpointKey (source l) = JStr (node_id node) \<and> v = endpointKey (target l)) \<or>
        (endpointKey (target l) = JStr (node_id node) \<and> v = endpointKey (source l)))"
proof (induction ls arbitrary: acc)
  case Nil
  then show ?case by simp
next
  case (Cons l ls)
  show ?case
    unfolding fold_simps Cons.IH
    by (auto simp: addConnected_def Let_def)
qed

lemma connectedNodeIds_iff:
  "v \<in> connectedNodeIds ls node \<longleftrightarrow>
     (\<exists>l \<in> set ls.
        (endpointKey (source l) = JStr (node_id node) \<and> v = endpointKey (target l)) \<or>
        (endpointKey (target l) = JStr (node_id node) \<and> v = endpointKey (source l)))"
  by (simp add: connectedNodeIds_def fold_addConnected)

lemma connected_resolved:
  assumes "resolved ls"
  shows "JStr j \<in> connectedNodeIds ls node \<longleftrightarrow> linked ls (node_id node) j"
proof -
  from assms have "\<forall>l \<in> set ls. endpointKey (source l) = JStr (endpointId (source l)) \<and>
      endpointKey (target l) = JStr (endpointId (target l))"
    by (simp add: resolved_def list_all_iff endpointKey_resolvable)
  then show ?thesis
    unfolding connectedNodeIds_iff linked_def list_ex_iff by auto
qed

lemma nodeOpacity_resolved:
  "resolved ls \<Longrightarrow>
   nodeOpacity ls node d =
     (if node_id d = node_id node \<or> linked ls (node_id node) (node_id d) then 1 else 0.3)"
  by (simp add: nodeOpacity_def connected_resolved)

lemma link_emphasis_resolved:
  assumes "resolvable (source d)" and "resolvable (target d)"
  shows "linkOpacity node d = (if incident (node_id node) d then 1 else 0.1) \<and>
         linkStrokeWidth node d = (if incident (node_id node) d then 3 else 1)"
  using assms
  by (auto simp: linkOpacity_def linkStrokeWidth_def incident_def endpointKey_resolvable)

text \<open>
  With resolvable endpoints the emphasis is the one of the claim: the hovered node and the
  nodes directly linked to it are opaque and the others at 0.3; the links at the hovered
  node are opaque and 3 wide, the others at 0.1 and 1 wide.
\<close>

lemma highlightConnected_resolved:
  assumes "resolved (links vis)"
  shows "highlightConnected vis node =
     \<lparr>node_opacity =
        map (\<lambda>d. (d, if node_id d = node_id node \<or>
                         linked (links vis) (node_id node) (node_id d)
                      then 1 else 0.3)) (nodes vis),
      link_style =
        map (\<lambda>d. (d, if incident (node_id node) d then 1 else 0.1,
                      if incident (node_id node) d then 3 else 1)) (links vis)\<rparr>"
proof -
  from assms have "\<forall>d \<in> set (links vis). resolvable (source d) \<and> resolvable (target d)"
    by (simp add: resolved_def list_all_iff)
  then have "map (\<lambda>d. (d, linkOpacity node d, linkStrokeWidth node d)) (links vis) =
      map (\<lambda>d. (d, if incident (node_id node) d then 1 else 0.1,
                    if incident (node_id node) d then 3 else 1)) (links vis)"
    by (simp add: link_emphasis_resolved)
  with assms show ?thesis
    by (simp add: highlightConnected_def nodeOpacity_resolved)
qed

text \<open>Clearing the focus: every node opaque, every link at 0.6, 2 wide for \<open>CALLS\<close>.\<close>

lemma removeHighlight_baseline:
  "map snd (node_opacity (removeHighlight vis)) = replicate (length (nodes vis)) 1 \<and>
   map (fst \<circ> snd) (link_style (removeHighlight vis)) = replicate (length (links vis)) 0.6 \<and>
   map (snd \<circ> snd) (link_style (removeHighlight vis)) =
     map (\<lambda>d. if link_type d = ''CALLS'' then 2 else 1) (links vis)"
  by (simp add: removeHighlight_def map_replicate_const comp_def)

text \<open>
  C8: exactly the focus node and the nodes directly linked to it are at full opacity and
  every other node is dimmed; the links at the focus node are at full opacity and wider,
  the others dimmed. The code departs from this on the view below, where \<open>E\<close> (the node
  with the empty id) and \<open>B\<close> are joined by a resolved link. Hovering \<open>B\<close> dims its
  neighbour \<open>E\<close>: the loop stores the node object, and the lookup of the id \<open>''\<close> misses
  it. Hovering \<open>E\<close> dims both its neighbour and its own link.
\<close>

theorem neighbour_with_empty_id_dimmed:
  "linked (links exEmptyIdSnapshot) (node_id exB) (node_id exE) \<and>
   highlightConnected exEmptyIdSnapshot exB =
     \<lparr>node_opacity = [(exB, 1), (exE, 0.3)], link_style = [(exRefLink, 1, 3)]\<rparr> \<and>
   highlightConnected exEmptyIdSnapshot exE =
     \<lparr>node_opacity = [(exB, 0.3), (exE, 1)], link_style = [(exRefLink, 0.1, 1)]\<rparr>"
  by (simp add: highlightConnected_def nodeOpacity_def linkOpacity_def linkStrokeWidth_def
      connectedNodeIds_def addConnected_def endpointKey_def endpointId_def linked_def
      exEmptyIdSnapshot_def exRefLink_def exB_def exE_def)

section \<open>Error responses of the request operations\<close>

text \<open>
  C4, as stated: every operation whose response carries an \<open>error\<close> field sets the error
  status of the store. \<open>findPaths\<close> does not: on the error response it dispatches nothing
  and returns the empty list.
\<close>

theorem findPaths_error_counterexample:
  "resp_error exErrorResponse = Some ''backend down'' \<and>
   findPaths (Resolved exErrorResponse) = ([], [])"
  by (simp add: findPaths_def exErrorResponse_def emptyResponse_def truthy_def)

text \<open>
  C4, amended: when the response carries a non-empty \<open>error\<close> field \<open>e\<close>,
  \<open>fetchGraphData\<close> and \<open>pruneTree\<close> dispatch \<open>setGraphError(e)\<close> as their last error
  status and dispatch no \<open>setGraphData\<close>; \<open>getSubgraph\<close>, \<open>findPaths\<close>,
  \<open>searchNodes\<close>, \<open>getNodeDetails\<close> and \<open>exportGraph\<close> dispatch nothing at all, so
  they leave both the snapshot and the error status as they were, and report the error to
  the caller by returning \<open>null\<close> or the empty list.
\<close>

theorem error_response:
  assumes "resp_error r = Some e" and "e \<noteq> ''''"
  shows "fetchGraphData (Resolved r) =
           [SetGraphLoading True, SetGraphError None, SetGraphError (Some e),
            SetGraphLoading False] \<and>
         \<not> list_ex setsData (fetchGraphData (Resolved r)) \<and>
         pruneTree (Resolved r) =
           ([SetGraphLoading True, SetGraphError (Some e), SetGraphLoading False], None) \<and>
         \<not> list_ex setsData (fst (pruneTree (Resolved r))) \<and>
         getSubgraph (Resolved r) = ([], None) \<and>
         findPaths (Resolved r) = ([], []) \<and>
         searchNodes (Resolved r) = ([], []) \<and>
         getNodeDetails (Resolved r) = ([], None) \<and>
         exportGraph (Resolved r) = ([], None)"
  using assms
  by (simp add: fetchGraphData_def pruneTree_def getSubgraph_def findPaths_def searchNodes_def
      getNodeDetails_def exportGraph_def truthy_def orElse_def setsData_def)

theorem error_response_witness:
  "fetchGraphData (Resolved exErrorResponse) =
     [SetGraphLoading True, SetGraphError None, SetGraphError (Some ''backend down''),
      SetGraphLoading False] \<and>
   pruneTree (Resolved exErrorResponse) =
     ([SetGraphLoading True, SetGraphError (Some ''backend down''), SetGraphLoading False],
      None) \<and>
   exportGraph (Resolved exErrorResponse) = ([], None)"
proof -
  have "resp_error exErrorResponse = Some ''backend down''"
    by (simp add: exErrorResponse_def)
  from error_response [OF this] show ?thesis
    by simp
qed

text \<open>
  A response whose \<open>error\<close> field is the empty string is not an error for the code: the
  fetch replaces the snapshot.
\<close>

lemma empty_error_is_success:
  "fetchGraphData (Resolved (emptyResponse\<lparr>resp_error := Some ''''\<rparr>)) =
     [SetGraphLoading True, SetGraphError None,
      SetGraphData (emptyResponse\<lparr>resp_nodes := Some [], resp_links := Some []\<rparr>),
      SetGraphLoading False]"
  by (simp add: fetchGraphData_def truthy_def orEmpty_def emptyResponse_def)

section \<open>Reconnection and teardown\<close>

lemma run_Nil: "run [] s = s"
  by (simp add: run_def)

lemma run_Cons: "run (e # es) s = run es (step e s)"
  by (simp add: run_def)

lemma run_append: "run (es @ fs) s = run fs (run es s)"
  by (simp add: run_def)

lemma step_Close:
  "step Close s = s\<lparr>ws := Some CLOSED, isConnected := False, timers := timers s @ [5000]\<rparr>"
  by (simp add: step_def onclose_def)

text \<open>
  The error handler clears the flag and schedules nothing; the reconnect of a failure that
  begins with an error event comes from the close event after it.
\<close>

lemma step_Error: "step Error s = s\<lparr>isConnected := False\<rparr>"
  by (simp add: step_def onerror_def)

text \<open>A channel failure clears the flag and schedules exactly one reconnect, at 5000 ms.\<close>

lemma run_channelFailure:
  "run (channelFailure b) s =
     s\<lparr>ws := Some CLOSED, isConnected := False, timers := timers s @ [5000]\<rparr>"
  by (cases b) (simp_all add: channelFailure_def run_Cons run_Nil step_Close step_Error)












text \<open>
  The one way the retries end: when the constructor throws in an attempt, the attempt is
  made, no socket is constructed and nothing is pending, so that no socket exists whose
  failure could schedule another attempt. With the constant URL of the source the
  constructor does not throw; a connection that cannot be made is reported by the error and
  close events of the socket.
\<close>

lemma constructor_throw_ends_retries:
  assumes "timers s = []"
  shows "attempts (run (failure (b, True)) s) = attempts s + 1 \<and>
         constructed (run (failure (b, True)) s) = constructed s \<and>
         timers (run (failure (b, True)) s) = [] \<and>
         \<not> isConnected (run (failure (b, True)) s) \<and>
         step (Timer t) (run (failure (b, True)) s) = run (failure (b, True)) s"
  using assms
  by (simp add: failure_def run_append run_channelFailure run_Cons run_Nil step_def
      connectWebSocket_def)



text \<open>The cleanup calls \<open>ws.close()\<close> only on an open socket, and touches no timer.\<close>

lemma cleanup_effect:
  "closeCalls (cleanup s) = (if ws s = Some OPEN then closeCalls s + 1 else closeCalls s) \<and>
   timers (cleanup s) = timers s"
  by (simp add: cleanup_def)

text \<open>
  C6: on teardown the connection is closed only if it is open and any pending reconnect
  timer is cancelled, so that no connection attempt runs after teardown. The code closes
  the open socket once, but it cancels nothing. Unmounting the connected component closes
  the socket, the close event runs \<open>onclose\<close>, which schedules a reconnect, and the timer
  then constructs a second socket. Unmounting after a close, while the reconnect timer is
  pending, leaves the timer pending, and it too constructs a second socket.
\<close>

theorem teardown_keeps_reconnecting:
  "ws exConnected = Some OPEN \<and> constructed exConnected = 1 \<and>
   closeCalls (run [Unmount] exConnected) = 1 \<and>
   timers (run [Unmount, Close] exConnected) = [5000] \<and>
   constructed (run [Unmount, Close, Timer False] exConnected) = 2 \<and>
   timers (run [Close] exConnected) = [5000] \<and>
   timers (run [Close, Unmount] exConnected) = [5000] \<and>
   constructed (run [Close, Unmount, Timer False] exConnected) = 2"
  by (simp add: exConnected_def initialConn_def run_def step_def onopen_def onclose_def
      cleanup_def connectWebSocket_def)

section \<open>Deltas on the snapshot\<close>

lemma link_invariant_iff:
  "link_invariant g \<longleftrightarrow>
     (\<forall>l \<in> set (links g).
        hasNode g (endpointId (source l)) \<and> hasNode g (endpointId (target l)))"
  by (simp add: link_invariant_def list_all_iff)

lemma hasNode_iff: "hasNode g i \<longleftrightarrow> (\<exists>n \<in> set (nodes g). node_id n = i)"
  by (auto simp: hasNode_def)

lemma hasNode_after_removal:
  "hasNode \<lparr>nodes = filter (\<lambda>n. node_id n \<noteq> i) (nodes g), links = ls\<rparr> j \<longleftrightarrow>
     hasNode g j \<and> j \<noteq> i"
  by (auto simp: hasNode_def)

lemma invariant_NodeAdded: "link_invariant g \<Longrightarrow> link_invariant (applyDelta (NodeAdded n) g)"
  by (auto simp: link_invariant_iff hasNode_iff)

text \<open>
  Removing a node keeps the invariant because the links that reference it go with it: a
  link that stays has both ends elsewhere, and those nodes stay.
\<close>

lemma invariant_NodeRemoved:
  assumes "link_invariant g"
  shows "link_invariant (applyDelta (NodeRemoved i) g)"
proof -
  have "hasNode (applyDelta (NodeRemoved i) g) (endpointId (source l)) \<and>
        hasNode (applyDelta (NodeRemoved i) g) (endpointId (target l))"
    if "l \<in> set (links (applyDelta (NodeRemoved i) g))" for l
  proof -
    from that have l: "l \<in> set (links g)" and away: "\<not> references i l"
      by simp_all
    from assms l have "hasNode g (endpointId (source l))" "hasNode g (endpointId (target l))"
      by (simp_all add: link_invariant_iff)
    with away show ?thesis
      by (simp add: hasNode_after_removal references_def)
  qed
  then show ?thesis
    unfolding link_invariant_iff by blast
qed

lemma invariant_LinkAdded: "link_invariant g \<Longrightarrow> link_invariant (applyDelta (LinkAdded l) g)"
  by (auto simp: link_invariant_iff hasNode_iff)

lemma invariant_LinkRemoved:
  "link_invariant g \<Longrightarrow> link_invariant (applyDelta (LinkRemoved l) g)"
  by (auto simp: link_invariant_iff hasNode_iff)

lemma invariant_applyDelta: "link_invariant g \<Longrightarrow> link_invariant (applyDelta d g)"
  by (cases d)
    (simp_all only: invariant_NodeAdded invariant_NodeRemoved invariant_LinkAdded
      invariant_LinkRemoved)

lemma invariant_applyDeltas: "link_invariant g \<Longrightarrow> link_invariant (applyDeltas ds g)"
proof (induction ds arbitrary: g)
  case Nil
  then show ?case by (simp add: applyDeltas_def)
next
  case (Cons d ds)
  from Cons.IH [OF invariant_applyDelta [OF Cons.prems, of d]] show ?case
    by (simp add: applyDeltas_def)
qed

lemma NodeRemoved_cascade:
  "\<not> hasNode (applyDelta (NodeRemoved i) g) i \<and>
   list_all (\<lambda>l. \<not> references i l) (links (applyDelta (NodeRemoved i) g))"
  by (auto simp: hasNode_iff list_all_iff)

text \<open>
  C1: from a snapshot that satisfies the link invariant, every sequence of deltas, and so
  every sequence of push messages, leads to a snapshot that satisfies it; and removing the
  node \<open>i\<close> leaves neither a node with the id \<open>i\<close> nor a link whose source or target is
  \<open>i\<close>.
\<close>

theorem deltas_preserve_link_invariant:
  assumes "link_invariant g"
  shows "link_invariant (applyDeltas ds g) \<and>
         link_invariant (applyDeltas (pushDeltas ms) g) \<and>
         \<not> hasNode (applyDelta (NodeRemoved i) g) i \<and>
         list_all (\<lambda>l. \<not> references i l) (links (applyDelta (NodeRemoved i) g))"
  using assms by (simp only: invariant_applyDeltas NodeRemoved_cascade simp_thms)

theorem deltas_preserve_link_invariant_witness:
  "link_invariant exSnapshot \<and>
   pushDeltas [exRemoveB] = [NodeRemoved ''B''] \<and>
   applyDeltas (pushDeltas [exRemoveB]) exSnapshot = \<lparr>nodes = [exA], links = []\<rparr> \<and>
   link_invariant (applyDeltas (pushDeltas [exRemoveB]) exSnapshot)"
proof -
  have inv: "link_invariant exSnapshot"
    by (simp add: link_invariant_def hasNode_def endpointId_def exSnapshot_def exA_def
        exB_def)
  have p: "pushDeltas [exRemoveB] = [NodeRemoved ''B'']"
    by (simp add: pushDeltas_def onmessage_def dispatched_def toDelta_def exRemoveB_def)
  have "applyDeltas [NodeRemoved ''B''] exSnapshot = \<lparr>nodes = [exA], links = []\<rparr>"
    by (simp add: applyDeltas_def references_def endpointId_def exSnapshot_def exA_def
        exB_def)
  with inv p deltas_preserve_link_invariant [OF inv, of "[]" "[exRemoveB]" "''B''"]
  show ?thesis
    by simp
qed

text \<open>
  C7: adding a node whose id is already in the snapshot changes nothing, and adding a node
  for the same id a second time gives the snapshot that the first addition gave.
\<close>

theorem node_added_idempotent:
  "(hasNode g (node_id n) \<longrightarrow> applyDelta (NodeAdded n) g = g) \<and>
   (node_id m = node_id n \<longrightarrow>
      applyDelta (NodeAdded m) (applyDelta (NodeAdded n) g) = applyDelta (NodeAdded n) g)"
  by (simp add: hasNode_def)

theorem node_added_idempotent_witness:
  "hasNode exSnapshot (node_id exA) \<and> applyDelta (NodeAdded exA) exSnapshot = exSnapshot \<and>
   node_id (exE\<lparr>node_type := ''Class''\<rparr>) = node_id exE \<and>
   nodes (applyDelta (NodeAdded (exE\<lparr>node_type := ''Class''\<rparr>))
            (applyDelta (NodeAdded exE) exSnapshot)) = [exA, exB, exE]"
proof -
  have h: "hasNode exSnapshot (node_id exA)"
    by (simp add: hasNode_def exSnapshot_def)
  have "nodes (applyDelta (NodeAdded exE) exSnapshot) = [exA, exB, exE]"
    by (simp add: hasNode_def exSnapshot_def exA_def exB_def exE_def)
  with h node_added_idempotent [of exSnapshot exA]
    node_added_idempotent [of exSnapshot exE "exE\<lparr>node_type := ''Class''\<rparr>"]
  show ?thesis
    by simp
qed

end
